theory Spec2Isabelle
  imports Complex_Main "HOL-Library.AList"
begin

section \<open>Data model (models.py)\<close>

text \<open>
  Clock readings (\<^verbatim>\<open>time.time()\<close>) and durations are real numbers of seconds.
  A Python \<^verbatim>\<open>dict\<close> is an association list in insertion order whose keys are
  pairwise distinct; \<^verbatim>\<open>d[k] = v\<close> is \<open>AList.update\<close> (in place when the key is
  there, appended otherwise), \<^verbatim>\<open>del d[k]\<close> and \<^verbatim>\<open>d.pop(k, None)\<close> are
  \<open>AList.delete\<close>, \<^verbatim>\<open>d.get(k)\<close> is \<open>map_of\<close> and \<^verbatim>\<open>len(d)\<close> is \<open>length\<close>.
\<close>

type_synonym ('k, 'v) dict = "('k \<times> 'v) list"

definition dict_ok :: "('k, 'v) dict \<Rightarrow> bool" where
  "dict_ok d = distinct (map fst d)"

datatype selection_status = WAITING | COMPLETED | FAILED | TIMEOUT

record 'v cache_entry =
  data :: 'v
  timestamp :: real
  key :: string

record 'a selection_data =
  status :: selection_status
  search_id :: string
  sel_timestamp :: real
  connected :: bool
  selected_icons :: "'a list"

datatype error =
    KeyError string
  | ZeroDivisionError
  | ValueError string
  | TimeoutError string
  | RuntimeError string

section \<open>CacheManager (utils/cache.py)\<close>

text \<open>
  The three namespaces of the store. \<open>'i\<close> and \<open>'s\<close> are the payloads of the icon and
  the search namespace (\<^verbatim>\<open>Any\<close> in the source, never \<^verbatim>\<open>None\<close> at a call site),
  \<open>'a\<close> is an item descriptor of a selection.
\<close>

record ('i, 's, 'a) cache_manager =
  expiry_seconds :: real
  icon_cache :: "(string, 'i cache_entry) dict"
  search_cache :: "(string, 's cache_entry) dict"
  selection_cache :: "(string, 'a selection_data) dict"

definition CacheManager :: "real \<Rightarrow> ('i, 's, 'a) cache_manager" where
  "CacheManager expiry =
     \<lparr>expiry_seconds = expiry, icon_cache = [], search_cache = [], selection_cache = []\<rparr>"

text \<open>Every operation that reads the clock takes the reading \<open>now\<close> as its first argument.\<close>

definition get_icon ::
  "real \<Rightarrow> ('i, 's, 'a) cache_manager \<Rightarrow> string \<Rightarrow> 'i option \<times> ('i, 's, 'a) cache_manager" where
  "get_icon now c k =
     (case map_of (icon_cache c) k of
        None \<Rightarrow> (None, c)
      | Some entry \<Rightarrow>
          if now - timestamp entry > expiry_seconds c
          then (None, c\<lparr>icon_cache := AList.delete k (icon_cache c)\<rparr>)
          else (Some (data entry), c))"

definition set_icon ::
  "real \<Rightarrow> ('i, 's, 'a) cache_manager \<Rightarrow> string \<Rightarrow> 'i \<Rightarrow> ('i, 's, 'a) cache_manager" where
  "set_icon now c k v =
     c\<lparr>icon_cache := AList.update k \<lparr>data = v, timestamp = now, key = k\<rparr> (icon_cache c)\<rparr>"

definition get_search ::
  "real \<Rightarrow> ('i, 's, 'a) cache_manager \<Rightarrow> string \<Rightarrow> 's option \<times> ('i, 's, 'a) cache_manager" where
  "get_search now c k =
     (case map_of (search_cache c) k of
        None \<Rightarrow> (None, c)
      | Some entry \<Rightarrow>
          if now - timestamp entry > expiry_seconds c
          then (None, c\<lparr>search_cache := AList.delete k (search_cache c)\<rparr>)
          else (Some (data entry), c))"

definition set_search ::
  "real \<Rightarrow> ('i, 's, 'a) cache_manager \<Rightarrow> string \<Rightarrow> 's \<Rightarrow> ('i, 's, 'a) cache_manager" where
  "set_search now c k v =
     c\<lparr>search_cache := AList.update k \<lparr>data = v, timestamp = now, key = k\<rparr> (search_cache c)\<rparr>"

definition get_selection ::
  "('i, 's, 'a) cache_manager \<Rightarrow> string \<Rightarrow> 'a selection_data option" where
  "get_selection c sid = map_of (selection_cache c) sid"

definition set_selection ::
  "('i, 's, 'a) cache_manager \<Rightarrow> string \<Rightarrow> 'a selection_data \<Rightarrow> ('i, 's, 'a) cache_manager" where
  "set_selection c sid d = c\<lparr>selection_cache := AList.update sid d (selection_cache c)\<rparr>"

definition delete_selection ::
  "('i, 's, 'a) cache_manager \<Rightarrow> string \<Rightarrow> ('i, 's, 'a) cache_manager" where
  "delete_selection c sid = c\<lparr>selection_cache := AList.delete sid (selection_cache c)\<rparr>"

subsection \<open>Statistics\<close>

record namespace_stats =
  valid :: nat
  expired :: nat
  total :: nat

record cache_stats =
  icon_cache_stats :: namespace_stats
  search_cache_stats :: namespace_stats
  selection_cache_total :: nat
  cache_expiry_minutes :: int

text \<open>\<^verbatim>\<open>int(x)\<close> on a float truncates towards zero.\<close>

definition py_int :: "real \<Rightarrow> int" where
  "py_int x = (if 0 \<le> x then \<lfloor>x\<rfloor> else \<lceil>x\<rceil>)"

definition is_valid :: "real \<Rightarrow> real \<Rightarrow> 'v cache_entry \<Rightarrow> bool" where
  "is_valid now expiry e \<longleftrightarrow> now - timestamp e \<le> expiry"

definition get_stats :: "real \<Rightarrow> ('i, 's, 'a) cache_manager \<Rightarrow> cache_stats" where
  "get_stats now c =
     (let icon_valid = length (filter (is_valid now (expiry_seconds c)) (map snd (icon_cache c)));
          icon_expired = length (icon_cache c) - icon_valid;
          search_valid = length (filter (is_valid now (expiry_seconds c)) (map snd (search_cache c)));
          search_expired = length (search_cache c) - search_valid
      in \<lparr>icon_cache_stats =
             \<lparr>valid = icon_valid, expired = icon_expired, total = length (icon_cache c)\<rparr>,
           search_cache_stats =
             \<lparr>valid = search_valid, expired = search_expired, total = length (search_cache c)\<rparr>,
           selection_cache_total = length (selection_cache c),
           cache_expiry_minutes = py_int (expiry_seconds c / 60)\<rparr>)"

subsection \<open>Clearing\<close>

text \<open>
  The loop \<^verbatim>\<open>for key in list(d.keys()): if now - d[key].timestamp > expiry: del d[key]; n += 1\<close>
  over a snapshot of the keys. \<^verbatim>\<open>d[key]\<close> raises \<^verbatim>\<open>KeyError\<close> on a missing key.
\<close>

fun clear_expired ::
  "real \<Rightarrow> real \<Rightarrow> string list \<Rightarrow> (string, 'v cache_entry) dict \<Rightarrow> nat
     \<Rightarrow> error + ((string, 'v cache_entry) dict \<times> nat)" where
  "clear_expired now expiry [] d n = Inr (d, n)"
| "clear_expired now expiry (k # ks) d n =
     (case map_of d k of
        None \<Rightarrow> Inl (KeyError k)
      | Some entry \<Rightarrow>
          if now - timestamp entry > expiry
          then clear_expired now expiry ks (AList.delete k d) (n + 1)
          else clear_expired now expiry ks d n)"

record clear_counts =
  icon_cleared :: nat
  search_cleared :: nat

definition clear ::
  "real \<Rightarrow> bool \<Rightarrow> ('i, 's, 'a) cache_manager
     \<Rightarrow> error + (clear_counts \<times> ('i, 's, 'a) cache_manager)" where
  "clear now expired_only c =
     (if expired_only then
        (case clear_expired now (expiry_seconds c) (map fst (icon_cache c)) (icon_cache c) 0 of
           Inl e \<Rightarrow> Inl e
         | Inr (icons', icon_n) \<Rightarrow>
             (case clear_expired now (expiry_seconds c) (map fst (search_cache c)) (search_cache c) 0 of
                Inl e \<Rightarrow> Inl e
              | Inr (searches', search_n) \<Rightarrow>
                  Inr (\<lparr>icon_cleared = icon_n, search_cleared = search_n\<rparr>,
                       c\<lparr>icon_cache := icons', search_cache := searches'\<rparr>)))
      else
        Inr (\<lparr>icon_cleared = length (icon_cache c), search_cleared = length (search_cache c)\<rparr>,
             c\<lparr>icon_cache := [], search_cache := []\<rparr>))"

section \<open>Session transport (utils/web_server.py)\<close>

text \<open>
  The server runs on one asyncio event loop: the code between two \<^verbatim>\<open>await\<close>s runs
  without interruption, at one clock reading, and at an \<^verbatim>\<open>await\<close> the other flows
  (socket handlers, HTTP handlers, pollers) run their own blocks. Each block is a function
  on the store; what other flows do while a coroutine is suspended is a list of events.
\<close>

subsection \<open>Submission: \<^verbatim>\<open>_handle_save_api\<close>\<close>

datatype save_response = SaveOk nat | SaveBadRequest

text \<open>
  The arguments are \<^verbatim>\<open>body.get("icons", [])\<close> and \<^verbatim>\<open>body.get("searchId", "")\<close> of the
  parsed JSON body; \<open>SaveBadRequest\<close> is the status 400 answer, \<open>SaveOk n\<close> is
  \<^verbatim>\<open>{"success": True, "count": n}\<close>.
\<close>

definition handle_save_api ::
  "real \<Rightarrow> ('i, 's, 'a) cache_manager \<Rightarrow> 'a list \<Rightarrow> string
     \<Rightarrow> save_response \<times> ('i, 's, 'a) cache_manager" where
  "handle_save_api now c items sid =
     (if items = [] \<or> sid = [] then (SaveBadRequest, c)
      else (SaveOk (length items),
            set_selection c sid
              \<lparr>status = COMPLETED, search_id = sid, sel_timestamp = now, connected = True,
               selected_icons = items\<rparr>))"

subsection \<open>Polling: one iteration of the loop of \<^verbatim>\<open>_check_selection\<close> (server.py)\<close>

text \<open>
  The three dictionaries \<^verbatim>\<open>_check_selection\<close> returns: \<open>Completed items n\<close> is
  \<^verbatim>\<open>{"success": True, "status": "completed", "selected_icons": items, "count": n}\<close>,
  \<open>Failed\<close> is \<^verbatim>\<open>{"success": False, "status": "failed", ...}\<close> and \<open>Timeout secs\<close> is
  \<^verbatim>\<open>{"success": False, "status": "timeout", ...}\<close> with the elapsed whole seconds in its
  message.
\<close>

datatype 'a check_result = Completed "'a list" nat | Failed | Timeout int

fun success :: "'a check_result \<Rightarrow> bool" where
  "success (Completed items n) = True"
| "success Failed = False"
| "success (Timeout secs) = False"

fun result_status :: "'a check_result \<Rightarrow> string" where
  "result_status (Completed items n) = ''completed''"
| "result_status Failed = ''failed''"
| "result_status (Timeout secs) = ''timeout''"

text \<open>The body of the loop up to the sleep: \<open>Some r\<close> is \<^verbatim>\<open>return r\<close>, \<open>None\<close> goes on.\<close>

definition check_once ::
  "('i, 's, 'a) cache_manager \<Rightarrow> string \<Rightarrow> 'a check_result option \<times> ('i, 's, 'a) cache_manager" where
  "check_once c sid =
     (case get_selection c sid of
        None \<Rightarrow> (None, c)
      | Some selection \<Rightarrow>
          if status selection = COMPLETED
          then (Some (Completed (selected_icons selection) (length (selected_icons selection))),
                delete_selection c sid)
          else if status selection = FAILED
          then (Some Failed, delete_selection c sid)
          else (None, c))"

subsection \<open>The socket handler \<^verbatim>\<open>_handle_websocket\<close>\<close>

text \<open>Lines 221 to 234: the record written when the connection is established.\<close>

definition handle_websocket_open ::
  "real \<Rightarrow> ('i, 's, 'a) cache_manager \<Rightarrow> string \<Rightarrow> ('i, 's, 'a) cache_manager" where
  "handle_websocket_open now c sid =
     (if sid \<noteq> [] then
        set_selection c sid
          \<lparr>status = WAITING, search_id = sid, sel_timestamp = now, connected = True,
           selected_icons = []\<rparr>
      else c)"

definition grace_period :: real where
  "grace_period = 2"

text \<open>Lines 261 to 271: the block after \<^verbatim>\<open>await asyncio.sleep(2)\<close>.\<close>

definition handle_websocket_recheck ::
  "real \<Rightarrow> ('i, 's, 'a) cache_manager \<Rightarrow> string \<Rightarrow> ('i, 's, 'a) cache_manager" where
  "handle_websocket_recheck now c sid =
     (case get_selection c sid of
        None \<Rightarrow> c
      | Some selection \<Rightarrow>
          if status selection = WAITING then
            set_selection c sid
              \<lparr>status = FAILED, search_id = sid, sel_timestamp = now, connected = False,
               selected_icons = []\<rparr>
          else c)"

text \<open>
  The blocks of the other flows that write the selection namespace, each with its clock
  reading: another connection being established, another handler waking from its grace
  period, a submission, an iteration of a poller.
\<close>

datatype 'a event =
    WsOpen real string
  | WsRecheck real string
  | Save real "'a list" string
  | PollIteration string

fun apply_event :: "'a event \<Rightarrow> ('i, 's, 'a) cache_manager \<Rightarrow> ('i, 's, 'a) cache_manager" where
  "apply_event (WsOpen now sid) c = handle_websocket_open now c sid"
| "apply_event (WsRecheck now sid) c = handle_websocket_recheck now c sid"
| "apply_event (Save now items sid) c = snd (handle_save_api now c items sid)"
| "apply_event (PollIteration sid) c = snd (check_once c sid)"

definition run_events ::
  "'a event list \<Rightarrow> ('i, 's, 'a) cache_manager \<Rightarrow> ('i, 's, 'a) cache_manager" where
  "run_events evs c = fold apply_event evs c"

text \<open>
  A suspension is a pair \<open>(late, evs)\<close>: the coroutine resumes \<open>max 0 late\<close> seconds after
  the earliest moment it may, and the other flows ran \<open>evs\<close> in between.

  The \<^verbatim>\<open>finally\<close> block, lines 254 to 271, entered at \<open>now\<close> when the connection is
  detected as closed. The set \<^verbatim>\<open>_ws_clients\<close> plays no part in the selection state and
  is left out.
\<close>

definition handle_websocket_finally ::
  "real \<Rightarrow> real \<times> 'a event list \<Rightarrow> ('i, 's, 'a) cache_manager \<Rightarrow> string
     \<Rightarrow> ('i, 's, 'a) cache_manager" where
  "handle_websocket_finally now sleep c sid =
     (if sid \<noteq> [] then
        (case get_selection c sid of
           None \<Rightarrow> c
         | Some selection \<Rightarrow>
             if status selection = WAITING then
               handle_websocket_recheck (now + grace_period + max 0 (fst sleep))
                 (run_events (snd sleep) c) sid
             else c)
      else c)"

text \<open>
  The whole handler on its normal path (the welcome message is sent): the connection is
  established at \<open>now\<close>, stays open while the message loop runs (pings are answered and
  write nothing) and the other flows run the events of \<open>session\<close>, and is closed
  \<open>max 0 (fst session)\<close> seconds later.
\<close>

definition handle_websocket ::
  "real \<Rightarrow> string \<Rightarrow> real \<times> 'a event list \<Rightarrow> real \<times> 'a event list
     \<Rightarrow> ('i, 's, 'a) cache_manager \<Rightarrow> ('i, 's, 'a) cache_manager" where
  "handle_websocket now sid session sleep c =
     handle_websocket_finally (now + max 0 (fst session)) sleep
       (run_events (snd session) (handle_websocket_open now c sid)) sid"

section \<open>Polling coordinator: \<^verbatim>\<open>_check_selection\<close> (server.py)\<close>

definition check_interval :: real where
  "check_interval = 1 / 10"

text \<open>
  The loop \<^verbatim>\<open>while time.time() - start < max_wait_s\<close>. \<open>sched\<close> is the list of the
  suspensions to come, one for each \<^verbatim>\<open>await asyncio.sleep(check_interval)\<close>; when it is
  used up the other flows are idle and the sleep is punctual. \<open>sleeps\<close> counts the sleeps
  done so far. The status line printed every ten seconds has no effect on the result and
  is left out.
\<close>

function check_selection_loop ::
  "(real \<times> 'a event list) list \<Rightarrow> real \<Rightarrow> real \<Rightarrow> real \<Rightarrow> nat
     \<Rightarrow> ('i, 's, 'a) cache_manager \<Rightarrow> string
     \<Rightarrow> 'a check_result \<times> nat \<times> ('i, 's, 'a) cache_manager" where
  "check_selection_loop sched start max_wait_s now sleeps c sid =
     (if now - start < max_wait_s then
        (case fst (check_once c sid) of
           Some r \<Rightarrow> (r, sleeps, snd (check_once c sid))
         | None \<Rightarrow>
             (case sched of
                [] \<Rightarrow>
                  check_selection_loop [] start max_wait_s (now + check_interval)
                    (Suc sleeps) c sid
              | sleep # rest \<Rightarrow>
                  check_selection_loop rest start max_wait_s
                    (now + check_interval + max 0 (fst sleep))
                    (Suc sleeps) (run_events (snd sleep) c) sid))
      else (Timeout (py_int (now - start)), sleeps, c))"
  by pat_completeness auto
termination
proof -
  have sleep_advances:
    "nat \<lceil>(max_wait_s - (now + check_interval + late - start)) * 10\<rceil>
       < nat \<lceil>(max_wait_s - (now - start)) * 10\<rceil>"
    if "now - start < max_wait_s" and "0 \<le> late" for start max_wait_s now late :: real
  proof -
    from that(1) have pos: "0 < (max_wait_s - (now - start)) * 10" by simp
    have "(max_wait_s - (now + check_interval + late - start)) * 10
            \<le> (max_wait_s - (now - start)) * 10 - 1"
      using that(2) by (simp add: check_interval_def algebra_simps)
    then have "\<lceil>(max_wait_s - (now + check_interval + late - start)) * 10\<rceil>
            \<le> \<lceil>(max_wait_s - (now - start)) * 10 - 1\<rceil>"
      by (rule ceiling_mono)
    also have "\<dots> = \<lceil>(max_wait_s - (now - start)) * 10\<rceil> - 1"
      by (rule ceiling_diff_one)
    finally show ?thesis using pos by linarith
  qed
  show ?thesis
  proof (relation "measure (\<lambda>(sched, start, max_wait_s, now, sleeps, c, sid).
                    nat \<lceil>(max_wait_s - (now - start)) * 10\<rceil>)", goal_cases)
    case 1
    show ?case by simp
  next
    case (2 sched start max_wait_s now sleeps c sid)
    from sleep_advances [OF 2(1), of 0] show ?case by simp
  next
    case (3 sched start max_wait_s now sleeps c sid sleep rest)
    from sleep_advances [OF 3(1), of "max 0 (fst sleep)"] show ?case by simp
  qed
qed

declare check_selection_loop.simps [simp del]

text \<open>
  \<^verbatim>\<open>_check_selection\<close>: the search record is looked up first and its absence raises
  \<^verbatim>\<open>ValueError(t("selection.noSearchFound", ...))\<close>. The result carries the number of
  sleeps and the store as the call leaves it.
\<close>

definition check_selection ::
  "(real \<times> 'a event list) list \<Rightarrow> real \<Rightarrow> ('i, 's, 'a) cache_manager \<Rightarrow> string \<Rightarrow> int
     \<Rightarrow> (error + 'a check_result) \<times> nat \<times> ('i, 's, 'a) cache_manager" where
  "check_selection sched now c sid max_wait_ms =
     (case get_search now c sid of
        (None, c') \<Rightarrow> (Inl (ValueError ''selection.noSearchFound''), 0, c')
      | (Some cached, c') \<Rightarrow>
          (let max_wait_s = real_of_int max_wait_ms / 1000;
               start = now
           in case check_selection_loop sched start max_wait_s now 0 c' sid of
                (r, sleeps, c'') \<Rightarrow> (Inr r, sleeps, c'')))"

section \<open>Pagination endpoint: \<^verbatim>\<open>_handle_cache_api\<close> (utils/web_server.py)\<close>

text \<open>
  A slice \<^verbatim>\<open>xs[i:j]\<close>: a negative index counts from the end, and both indices are
  clipped to the list.
\<close>

definition py_slice :: "'a list \<Rightarrow> int \<Rightarrow> int \<Rightarrow> 'a list" where
  "py_slice xs i j =
     (let n = int (length xs);
          lo = (if i < 0 then max 0 (i + n) else min i n);
          hi = (if j < 0 then max 0 (j + n) else min j n)
      in take (nat (hi - lo)) (drop (nat lo) xs))"

text \<open>
  The dictionary \<^verbatim>\<open>search_icons\<close> stores in the search namespace, and the body of the
  answer of the endpoint. \<open>Json404\<close> is \<^verbatim>\<open>{"error": "Search not found"}\<close> with status
  404. The arguments \<open>pg\<close> and \<open>psize\<close> are the query parameters \<^verbatim>\<open>page\<close> and
  \<^verbatim>\<open>pageSize\<close> after \<^verbatim>\<open>int(...)\<close> (defaults 1 and 15); \<^verbatim>\<open>//\<close> on integers is
  \<open>div\<close>, and a zero page size raises \<^verbatim>\<open>ZeroDivisionError\<close>.
\<close>

record 'a search_record =
  rec_query :: string
  rec_page :: int
  rec_page_size :: int
  rec_icons :: "'a list"
  rec_total_count :: int
  rec_timestamp :: real

record 'a cache_page =
  page_icons :: "'a list"
  page_count :: nat
  totalCount :: int
  page_number :: int
  pageSize :: int
  totalPages :: int

datatype 'a cache_response = Json200 "'a cache_page" | Json404 string

definition handle_cache_api ::
  "real \<Rightarrow> ('i, 'a search_record, 'b) cache_manager \<Rightarrow> string \<Rightarrow> int \<Rightarrow> int
     \<Rightarrow> (error + 'a cache_response) \<times> ('i, 'a search_record, 'b) cache_manager" where
  "handle_cache_api now c sid pg psize =
     (case get_search now c sid of
        (None, c') \<Rightarrow> (Inr (Json404 ''Search not found''), c')
      | (Some cached, c') \<Rightarrow>
          (let items = rec_icons cached;
               total_count = rec_total_count cached;
               start = (pg - 1) * psize;
               stop = start + psize;
               shown = py_slice items start stop
           in if psize = 0 then (Inl ZeroDivisionError, c')
              else (Inr (Json200
                      \<lparr>page_icons = shown, page_count = length shown, totalCount = total_count,
                       page_number = pg, pageSize = psize,
                       totalPages = max 1 ((int (length items) + psize - 1) div psize)\<rparr>),
                    c')))"

section \<open>Search: \<^verbatim>\<open>search_icons\<close> (utils/search.py)\<close>

text \<open>\<^verbatim>\<open>str(n)\<close> of an integer, as the f-strings print it.\<close>

fun str_nat :: "nat \<Rightarrow> string" where
  "str_nat n =
     (if n < 10 then [char_of (48 + n)]
      else str_nat (n div 10) @ [char_of (48 + n mod 10)])"

declare str_nat.simps [simp del]

definition str_int :: "int \<Rightarrow> string" where
  "str_int i = (if i < 0 then CHR ''-'' # str_nat (nat (- i)) else str_nat (nat i))"

text \<open>
  \<^verbatim>\<open>_generate_search_id\<close>; \<open>rand_str\<close> is the draw of eight random characters.
\<close>

definition generate_search_id :: "real \<Rightarrow> string \<Rightarrow> string" where
  "generate_search_id now rand_str =
     ''search_'' @ str_int (py_int (now * 1000)) @ ''_'' @ rand_str"

text \<open>
  The dictionary \<^verbatim>\<open>search_icons\<close> returns and caches under the key of its parameters
  (the translated instruction lines are given by their keys), and what the call to the
  upstream API comes to: a timeout, any other failure, or a JSON body with its code, its
  icon list and its count.
\<close>

record 'a search_result =
  res_search_id :: string
  res_query :: string
  res_count :: nat
  res_total_count :: int
  res_page :: int
  res_page_size :: int
  res_icons :: "'a list"
  res_instructions :: "string list"

datatype 'a upstream_reply = HttpTimeout | HttpFailure | ApiJson int "'a list" int

definition cache_key ::
  "string \<Rightarrow> string \<Rightarrow> int \<Rightarrow> int \<Rightarrow> string \<Rightarrow> int \<Rightarrow> string \<Rightarrow> string" where
  "cache_key q sort_type pg psize s_type from_collection fills =
     ''search_'' @ q @ ''_'' @ sort_type @ ''_'' @ str_int pg @ ''_'' @ str_int psize @ ''_''
       @ s_type @ ''_'' @ str_int from_collection @ ''_'' @ fills"

text \<open>
  \<open>upstream\<close> is the suspension at \<^verbatim>\<open>await client.post(...)\<close> with the reply: how long
  the request takes, what the other flows do meanwhile, and the reply.
\<close>

definition search_icons ::
  "real \<times> 'b event list \<times> 'a upstream_reply \<Rightarrow> string \<Rightarrow> real
     \<Rightarrow> ('a search_result, 'a search_record, 'b) cache_manager
     \<Rightarrow> string \<Rightarrow> string \<Rightarrow> int \<Rightarrow> int \<Rightarrow> string \<Rightarrow> int \<Rightarrow> string
     \<Rightarrow> (error + 'a search_result) \<times> ('a search_result, 'a search_record, 'b) cache_manager" where
  "search_icons upstream rand_str now c q sort_type pg psize s_type from_collection fills =
     (if pg < 1 then (Inl (ValueError ''search.invalidPage''), c)
      else if psize < 1 \<or> psize > 100 then (Inl (ValueError ''search.invalidPageSize''), c)
      else
        (case get_icon now c (cache_key q sort_type pg psize s_type from_collection fills) of
           (Some cached, c') \<Rightarrow> (Inr cached, c')
         | (None, c') \<Rightarrow>
             (let done = now + max 0 (fst upstream);
                  c'' = run_events (fst (snd upstream)) c'
              in case snd (snd upstream) of
                   HttpTimeout \<Rightarrow> (Inl (TimeoutError ''error.timeout''), c'')
                 | HttpFailure \<Rightarrow> (Inl (RuntimeError ''search.searchFailed''), c'')
                 | ApiJson code icons_data total_count \<Rightarrow>
                     if code \<noteq> 200 then (Inl (RuntimeError ''search.searchFailed''), c'')
                     else
                       (let sid = generate_search_id done rand_str;
                            result =
                              \<lparr>res_search_id = sid, res_query = q,
                               res_count = length icons_data, res_total_count = total_count,
                               res_page = pg, res_page_size = psize, res_icons = icons_data,
                               res_instructions =
                                 [''1. search.browseAndSelect'', ''2. search.clickSelect'',
                                  ''3. search.sendToClient'', ''4. search.autoReturn'']\<rparr>
                        in (Inr result,
                            set_search done
                              (set_icon done c''
                                 (cache_key q sort_type pg psize s_type from_collection fills)
                                 result)
                              sid
                              \<lparr>rec_query = q, rec_page = pg, rec_page_size = psize,
                               rec_icons = icons_data, rec_total_count = total_count,
                               rec_timestamp = done\<rparr>)))))"

section \<open>Example states\<close>

text \<open>
  Stores and calls at which the theorems below are instantiated; \<open>page_of\<close> reads the
  items and the number of pages off an answer of the pagination endpoint.
\<close>

definition example_cache :: "(nat, nat, nat) cache_manager" where
  "example_cache =
     \<lparr>expiry_seconds = 10,
      icon_cache = [(''a'', \<lparr>data = 1, timestamp = 0, key = ''a''\<rparr>),
                    (''b'', \<lparr>data = 2, timestamp = 95, key = ''b''\<rparr>)],
      search_cache = [(''s'', \<lparr>data = 3, timestamp = 50, key = ''s''\<rparr>)],
      selection_cache = [(''s'', \<lparr>status = WAITING, search_id = ''s'', sel_timestamp = 96,
                                 connected = True, selected_icons = []\<rparr>)]\<rparr>"

definition completed_example :: "(nat, nat, nat) cache_manager" where
  "completed_example =
     \<lparr>expiry_seconds = 1800,
      icon_cache = [],
      search_cache = [(''s1'', \<lparr>data = 3, timestamp = 0, key = ''s1''\<rparr>)],
      selection_cache = [(''s1'', \<lparr>status = COMPLETED, search_id = ''s1'', sel_timestamp = 5,
                                  connected = True, selected_icons = [4, 2]\<rparr>)]\<rparr>"

definition waiting_example :: "(nat, nat, nat) cache_manager" where
  "waiting_example =
     \<lparr>expiry_seconds = 1800,
      icon_cache = [],
      search_cache = [(''s1'', \<lparr>data = 3, timestamp = 0, key = ''s1''\<rparr>)],
      selection_cache = [(''s1'', \<lparr>status = WAITING, search_id = ''s1'', sel_timestamp = 5,
                                  connected = True, selected_icons = []\<rparr>)]\<rparr>"

definition failed_example :: "(nat, nat, nat) cache_manager" where
  "failed_example =
     \<lparr>expiry_seconds = 1800,
      icon_cache = [],
      search_cache = [(''s1'', \<lparr>data = 3, timestamp = 0, key = ''s1''\<rparr>)],
      selection_cache = [(''s1'', \<lparr>status = FAILED, search_id = ''s1'', sel_timestamp = 5,
                                  connected = False, selected_icons = []\<rparr>)]\<rparr>"

definition paged_example :: "(nat, nat search_record, nat) cache_manager" where
  "paged_example =
     \<lparr>expiry_seconds = 1800,
      icon_cache = [],
      search_cache =
        [(''s1'', \<lparr>data = \<lparr>rec_query = ''home'', rec_page = 1, rec_page_size = 100,
                          rec_icons = [1, 2, 3, 4, 5, 6, 7, 8, 9, 10, 11, 12, 13, 14, 15, 16, 17,
                                       18, 19, 20, 21, 22, 23],
                          rec_total_count = 23, rec_timestamp = 0\<rparr>,
                  timestamp = 0, key = ''s1''\<rparr>)],
      selection_cache = []\<rparr>"

definition page_of :: "(error + 'a cache_response) \<times> 'c \<Rightarrow> 'a list \<times> int" where
  "page_of r = (case fst r of Inr (Json200 p) \<Rightarrow> (page_icons p, totalPages p) | _ \<Rightarrow> ([], 0))"

definition first_search ::
  "(error + nat search_result) \<times> (nat search_result, nat search_record, nat) cache_manager" where
  "first_search =
     search_icons (1 / 2, [], ApiJson 200 [1, 2, 3] 3) ''abcd1234'' 0 (CacheManager 1800)
       ''home'' ''recommend'' 1 100 '''' (- 1) ''''"

section \<open>Properties of the store\<close>

lemma dict_ok_update: "dict_ok d \<Longrightarrow> dict_ok (AList.update k v d)"
  by (simp add: dict_ok_def distinct_update)

lemma dict_ok_delete: "dict_ok d \<Longrightarrow> dict_ok (AList.delete k d)"
  by (simp add: dict_ok_def distinct_delete)

lemma length_delete_present:
  "dict_ok d \<Longrightarrow> map_of d k = Some v \<Longrightarrow> Suc (length (AList.delete k d)) = length d"
proof (induction d)
  case Nil
  then show ?case by simp
next
  case (Cons p d)
  show ?case
  proof (cases "fst p = k")
    case True
    with Cons.prems have "k \<notin> fst ` set d"
      by (auto simp: dict_ok_def)
    with True show ?thesis by simp
  next
    case False
    with Cons show ?thesis
      by (cases p) (auto simp: dict_ok_def)
  qed
qed

lemma map_of_in_set: "dict_ok d \<Longrightarrow> (k, e) \<in> set d \<Longrightarrow> map_of d k = Some e"
  by (simp add: dict_ok_def)

lemma clear_expired_dict:
  "distinct ks \<Longrightarrow> dict_ok d \<Longrightarrow> set ks \<subseteq> fst ` set d \<Longrightarrow>
   \<exists>n'. clear_expired now ex ks d n =
     Inr (filter (\<lambda>(k, e). \<not> (k \<in> set ks \<and> now - timestamp e > ex)) d, n')"
proof (induction ks arbitrary: d n)
  case Nil
  then show ?case by simp
next
  case (Cons k ks)
  from Cons.prems obtain entry where entry: "map_of d k = Some entry"
    by (metis list.set_intros(1) subsetD weak_map_of_SomeI imageE prod.collapse map_of_eq_None_iff not_None_eq)
  have mem: "\<And>k' e. (k', e) \<in> set d \<Longrightarrow> k' = k \<Longrightarrow> e = entry"
    using map_of_in_set [OF Cons.prems(2)] entry by fastforce
  show ?case
  proof (cases "now - timestamp entry > ex")
    case True
    have ok': "dict_ok (AList.delete k d)"
      using Cons.prems(2) by (rule dict_ok_delete)
    have sub: "set ks \<subseteq> fst ` set (AList.delete k d)"
    proof
      fix x assume x: "x \<in> set ks"
      with Cons.prems(1) have "x \<noteq> k" by auto
      moreover from x Cons.prems(3) obtain e where "(x, e) \<in> set d" by force
      ultimately have "(x, e) \<in> set (AList.delete k d)" by (simp add: AList.delete_eq)
      then show "x \<in> fst ` set (AList.delete k d)" by force
    qed
    have dist: "distinct ks" using Cons.prems(1) by simp
    from Cons.IH [OF dist ok' sub, of "n + 1"] obtain n' where
      r: "clear_expired now ex ks (AList.delete k d) (n + 1) =
          Inr (filter (\<lambda>(k, e). \<not> (k \<in> set ks \<and> now - timestamp e > ex)) (AList.delete k d), n')"
      by blast
    have "filter (\<lambda>(k, e). \<not> (k \<in> set ks \<and> now - timestamp e > ex)) (AList.delete k d)
        = filter (\<lambda>(k', e). \<not> (k' \<in> set (k # ks) \<and> now - timestamp e > ex)) d"
      unfolding AList.delete_eq filter_filter
      by (rule filter_cong) (use True mem in auto)
    with r entry True show ?thesis by simp
  next
    case False
    have dist: "distinct ks" using Cons.prems(1) by simp
    have sub: "set ks \<subseteq> fst ` set d" using Cons.prems(3) by simp
    from Cons.IH [OF dist Cons.prems(2) sub, of n] obtain n' where
      r: "clear_expired now ex ks d n =
          Inr (filter (\<lambda>(k, e). \<not> (k \<in> set ks \<and> now - timestamp e > ex)) d, n')"
      by blast
    have "filter (\<lambda>(k, e). \<not> (k \<in> set ks \<and> now - timestamp e > ex)) d
        = filter (\<lambda>(k', e). \<not> (k' \<in> set (k # ks) \<and> now - timestamp e > ex)) d"
      by (rule filter_cong) (use False mem in auto)
    with r entry False show ?thesis by simp
  qed
qed

lemma clear_expired_count:
  "dict_ok d \<Longrightarrow> clear_expired now ex ks d n = Inr (d', n') \<Longrightarrow> n' + length d' = n + length d"
proof (induction ks arbitrary: d n)
  case Nil
  then show ?case by simp
next
  case (Cons k ks)
  show ?case
  proof (cases "map_of d k")
    case None
    with Cons.prems show ?thesis by simp
  next
    case (Some entry)
    show ?thesis
    proof (cases "now - timestamp entry > ex")
      case True
      with Some Cons.prems have "clear_expired now ex ks (AList.delete k d) (n + 1) = Inr (d', n')"
        by simp
      from Cons.IH [OF dict_ok_delete [OF Cons.prems(1)] this]
      show ?thesis using length_delete_present [OF Cons.prems(1) Some] by simp
    next
      case False
      with Some Cons.prems have "clear_expired now ex ks d n = Inr (d', n')"
        by simp
      from Cons.IH [OF Cons.prems(1) this] show ?thesis .
    qed
  qed
qed

lemma clear_expired_all:
  assumes "dict_ok d"
  shows "clear_expired now ex (map fst d) d 0 =
     Inr (filter (\<lambda>(k, e). now - timestamp e \<le> ex) d,
          length (filter (\<lambda>(k, e). now - timestamp e > ex) d))"
proof -
  let ?keep = "filter (\<lambda>(k, e). now - timestamp e \<le> ex) d"
  from assms have "distinct (map fst d)" by (simp add: dict_ok_def)
  from clear_expired_dict [OF this assms, of now ex 0] obtain n' where
    r: "clear_expired now ex (map fst d) d 0 =
        Inr (filter (\<lambda>(k, e). \<not> (k \<in> set (map fst d) \<and> now - timestamp e > ex)) d, n')"
    by auto
  have keep: "filter (\<lambda>(k, e). \<not> (k \<in> set (map fst d) \<and> now - timestamp e > ex)) d = ?keep"
    by (rule filter_cong) (auto simp: image_iff)
  from clear_expired_count [OF assms r [unfolded keep]] have "n' + length ?keep = length d"
    by simp
  moreover have "length ?keep + length (filter (\<lambda>(k, e). now - timestamp e > ex) d) = length d"
    using sum_length_filter_compl [of "\<lambda>(k, e). now - timestamp e \<le> ex" d]
    by (simp add: case_prod_beta not_le cong: filter_cong)
  ultimately have "n' = length (filter (\<lambda>(k, e). now - timestamp e > ex) d)"
    by simp
  with r keep show ?thesis by simp
qed

lemma get_icon_set_icon:
  "get_icon t' (set_icon t c k v) k =
     (if expiry_seconds c < t' - t
      then (None, c\<lparr>icon_cache := AList.delete k (icon_cache c)\<rparr>)
      else (Some v, set_icon t c k v))"
  by (simp add: get_icon_def set_icon_def update_conv' delete_update_same)

lemma get_search_set_search:
  "get_search t' (set_search t c k v) k =
     (if expiry_seconds c < t' - t
      then (None, c\<lparr>search_cache := AList.delete k (search_cache c)\<rparr>)
      else (Some v, set_search t c k v))"
  by (simp add: get_search_def set_search_def update_conv' delete_update_same)

lemma length_update:
  "length (AList.update k v d) = (if k \<in> fst ` set d then length d else Suc (length d))"
  by (induction d) auto

lemma length_update_absent_or_present:
  "dict_ok d \<Longrightarrow> Suc (length (AList.delete k d)) = length (AList.update k v d)"
proof (cases "map_of d k")
  case None
  then have "k \<notin> fst ` set d" by (simp add: map_of_eq_None_iff)
  then show ?thesis by (simp add: length_update)
next
  case (Some e)
  assume "dict_ok d"
  from length_delete_present [OF this Some] Some show ?thesis
    by (auto simp: length_update map_of_eq_None_iff [symmetric] simp del: map_of_eq_None_iff)
qed

text \<open>
  Claim C7. In the icon and in the search namespace, a \<open>get\<close> of a key that was just
  \<open>set\<close> returns the value that was set, as long as the age of the entry does not exceed
  \<open>expiry_seconds\<close> (in particular at once, for a TTL that is not negative). Once the age
  exceeds \<open>expiry_seconds\<close>, the same \<open>get\<close> returns nothing and removes the entry, and
  \<open>total\<close> of \<open>get_stats\<close> is one less than before.
\<close>

theorem set_get_roundtrip_and_expiry:
  fixes c :: "('i, 's, 'a) cache_manager"
  shows
  "(t' - t \<le> expiry_seconds c \<longrightarrow>
      get_icon t' (set_icon t c k v) k = (Some v, set_icon t c k v) \<and>
      get_search t' (set_search t c k w) k = (Some w, set_search t c k w)) \<and>
   (0 \<le> expiry_seconds c \<longrightarrow>
      fst (get_icon t (set_icon t c k v) k) = Some v \<and>
      fst (get_search t (set_search t c k w) k) = Some w) \<and>
   (expiry_seconds c < t' - t \<longrightarrow>
      fst (get_icon t' (set_icon t c k v) k) = None \<and>
      map_of (icon_cache (snd (get_icon t' (set_icon t c k v) k))) k = None \<and>
      (dict_ok (icon_cache c) \<longrightarrow>
         Suc (total (icon_cache_stats (get_stats t'' (snd (get_icon t' (set_icon t c k v) k)))))
           = total (icon_cache_stats (get_stats t'' (set_icon t c k v)))) \<and>
      fst (get_search t' (set_search t c k w) k) = None \<and>
      map_of (search_cache (snd (get_search t' (set_search t c k w) k))) k = None \<and>
      (dict_ok (search_cache c) \<longrightarrow>
         Suc (total (search_cache_stats (get_stats t'' (snd (get_search t' (set_search t c k w) k)))))
           = total (search_cache_stats (get_stats t'' (set_search t c k w)))))"
proof (intro conjI impI)
  assume "t' - t \<le> expiry_seconds c"
  then show "get_icon t' (set_icon t c k v) k = (Some v, set_icon t c k v)"
    and "get_search t' (set_search t c k w) k = (Some w, set_search t c k w)"
    by (simp_all add: get_icon_set_icon get_search_set_search)
next
  assume "0 \<le> expiry_seconds c"
  then show "fst (get_icon t (set_icon t c k v) k) = Some v"
    and "fst (get_search t (set_search t c k w) k) = Some w"
    by (simp_all add: get_icon_set_icon get_search_set_search)
next
  assume old: "expiry_seconds c < t' - t"
  then show "fst (get_icon t' (set_icon t c k v) k) = None"
    and "fst (get_search t' (set_search t c k w) k) = None"
    by (simp_all add: get_icon_set_icon get_search_set_search)
  from old show "map_of (icon_cache (snd (get_icon t' (set_icon t c k v) k))) k = None"
    and "map_of (search_cache (snd (get_search t' (set_search t c k w) k))) k = None"
    by (simp_all add: get_icon_set_icon get_search_set_search delete_conv')
  {
    assume "dict_ok (icon_cache c)"
    from length_update_absent_or_present [OF this] old
    show "Suc (total (icon_cache_stats (get_stats t'' (snd (get_icon t' (set_icon t c k v) k)))))
           = total (icon_cache_stats (get_stats t'' (set_icon t c k v)))"
      by (simp add: get_icon_set_icon get_stats_def Let_def) (simp add: set_icon_def)
  }
  {
    assume "dict_ok (search_cache c)"
    from length_update_absent_or_present [OF this] old
    show "Suc (total (search_cache_stats (get_stats t'' (snd (get_search t' (set_search t c k w) k)))))
           = total (search_cache_stats (get_stats t'' (set_search t c k w)))"
      by (simp add: get_search_set_search get_stats_def Let_def) (simp add: set_search_def)
  }
qed

theorem set_get_roundtrip_and_expiry_witness:
  "get_icon 5 (set_icon 0 (CacheManager 10 :: (nat, nat, nat) cache_manager) ''k'' 7) ''k''
     = (Some 7, set_icon 0 (CacheManager 10) ''k'' 7) \<and>
   fst (get_search 11 (set_search 0 (CacheManager 10 :: (nat, nat, nat) cache_manager) ''k'' 8) ''k'')
     = None \<and>
   Suc (total (icon_cache_stats (get_stats 11
      (snd (get_icon 11 (set_icon 0 (CacheManager 10 :: (nat, nat, nat) cache_manager) ''k'' 7) ''k'')))))
     = total (icon_cache_stats (get_stats 11 (set_icon 0 (CacheManager 10 :: (nat, nat, nat) cache_manager) ''k'' 7)))"
  using set_get_roundtrip_and_expiry
          [of 5 0 "CacheManager 10 :: (nat, nat, nat) cache_manager" "''k''" 7 8 11]
        set_get_roundtrip_and_expiry
          [of 11 0 "CacheManager 10 :: (nat, nat, nat) cache_manager" "''k''" 7 8 11]
  by (simp add: CacheManager_def dict_ok_def)

text \<open>
  Claim C8. On a store with distinct keys, \<open>clear\<close> with \<open>expired_only\<close> keeps exactly
  the entries of the icon and search namespaces whose age is at most \<open>expiry_seconds\<close> and
  returns how many entries of each it removed; without \<open>expired_only\<close> it empties both and
  returns their lengths; either way the selection namespace is what it was.
\<close>

theorem clear_exact:
  fixes c :: "('i, 's, 'a) cache_manager"
  assumes "dict_ok (icon_cache c)" and "dict_ok (search_cache c)"
  shows
  "clear now True c =
     Inr (\<lparr>icon_cleared =
              length (filter (\<lambda>(k, e). now - timestamp e > expiry_seconds c) (icon_cache c)),
            search_cleared =
              length (filter (\<lambda>(k, e). now - timestamp e > expiry_seconds c) (search_cache c))\<rparr>,
          c\<lparr>icon_cache := filter (\<lambda>(k, e). now - timestamp e \<le> expiry_seconds c) (icon_cache c),
            search_cache := filter (\<lambda>(k, e). now - timestamp e \<le> expiry_seconds c) (search_cache c)\<rparr>) \<and>
   clear now False c =
     Inr (\<lparr>icon_cleared = length (icon_cache c), search_cleared = length (search_cache c)\<rparr>,
          c\<lparr>icon_cache := [], search_cache := []\<rparr>) \<and>
   (\<forall>b r c'. clear now b c = Inr (r, c') \<longrightarrow>
      selection_cache c' = selection_cache c \<and> expiry_seconds c' = expiry_seconds c)"
proof (intro conjI allI impI)
  show t: "clear now True c =
     Inr (\<lparr>icon_cleared =
              length (filter (\<lambda>(k, e). now - timestamp e > expiry_seconds c) (icon_cache c)),
            search_cleared =
              length (filter (\<lambda>(k, e). now - timestamp e > expiry_seconds c) (search_cache c))\<rparr>,
          c\<lparr>icon_cache := filter (\<lambda>(k, e). now - timestamp e \<le> expiry_seconds c) (icon_cache c),
            search_cache := filter (\<lambda>(k, e). now - timestamp e \<le> expiry_seconds c) (search_cache c)\<rparr>)"
    by (simp add: clear_def clear_expired_all [OF assms(1)] clear_expired_all [OF assms(2)])
  show f: "clear now False c =
     Inr (\<lparr>icon_cleared = length (icon_cache c), search_cleared = length (search_cache c)\<rparr>,
          c\<lparr>icon_cache := [], search_cache := []\<rparr>)"
    by (simp add: clear_def)
  fix b r c'
  assume "clear now b c = Inr (r, c')"
  with t f show "selection_cache c' = selection_cache c" and "expiry_seconds c' = expiry_seconds c"
    by (cases b; auto)+
qed

theorem clear_exact_witness:
  "clear 100 True example_cache =
     Inr (\<lparr>icon_cleared = 1, search_cleared = 1\<rparr>,
          example_cache\<lparr>icon_cache := [(''b'', \<lparr>data = 2, timestamp = 95, key = ''b''\<rparr>)],
                        search_cache := []\<rparr>) \<and>
   clear 100 False example_cache =
     Inr (\<lparr>icon_cleared = 2, search_cleared = 1\<rparr>,
          example_cache\<lparr>icon_cache := [], search_cache := []\<rparr>)"
  using clear_exact [of example_cache 100]
  by (simp add: example_cache_def dict_ok_def)

section \<open>Properties of the session transport\<close>

lemma get_set_selection:
  "get_selection (set_selection c sid d) sid' = (if sid' = sid then Some d else get_selection c sid')"
  by (simp add: get_selection_def set_selection_def update_conv')

lemma get_delete_selection:
  "get_selection (delete_selection c sid) sid' = (if sid' = sid then None else get_selection c sid')"
  by (simp add: get_selection_def delete_selection_def delete_conv')

lemma set_selection_frame:
  "icon_cache (set_selection c sid d) = icon_cache c"
  "search_cache (set_selection c sid d) = search_cache c"
  "expiry_seconds (set_selection c sid d) = expiry_seconds c"
  by (simp_all add: set_selection_def)

lemma delete_selection_frame:
  "icon_cache (delete_selection c sid) = icon_cache c"
  "search_cache (delete_selection c sid) = search_cache c"
  "expiry_seconds (delete_selection c sid) = expiry_seconds c"
  by (simp_all add: delete_selection_def)

text \<open>
  Claim C9. For a search id that is not empty, establishing a connection leaves under that
  id a fresh WAITING record (connected, no items, stamped with the time of the connection),
  whatever the store held before, a COMPLETED or FAILED record included; the records of the
  other ids and the two other namespaces are left alone. For the empty search id the store
  is unchanged.
\<close>

theorem websocket_open_overwrites:
  fixes c :: "('i, 's, 'a) cache_manager"
  shows
  "(sid \<noteq> [] \<longrightarrow>
      get_selection (handle_websocket_open now c sid) sid =
        Some \<lparr>status = WAITING, search_id = sid, sel_timestamp = now, connected = True,
              selected_icons = []\<rparr> \<and>
      (\<forall>sid'. sid' \<noteq> sid \<longrightarrow>
         get_selection (handle_websocket_open now c sid) sid' = get_selection c sid')) \<and>
   handle_websocket_open now c [] = c \<and>
   icon_cache (handle_websocket_open now c sid) = icon_cache c \<and>
   search_cache (handle_websocket_open now c sid) = search_cache c"
  by (simp add: handle_websocket_open_def get_set_selection set_selection_frame)

theorem websocket_open_overwrites_witness:
  "get_selection (handle_websocket_open 9 completed_example ''s1'') ''s1'' =
     Some \<lparr>status = WAITING, search_id = ''s1'', sel_timestamp = 9, connected = True,
           selected_icons = []\<rparr> \<and>
   get_selection (handle_websocket_open 9 completed_example ''s1'') ''s2'' = None"
  using websocket_open_overwrites [of "''s1''" 9 completed_example]
  by (simp add: completed_example_def get_selection_def)

text \<open>
  Claim C1. When a connection is closed while the record of its search id is WAITING, the
  handler sleeps for the grace period and reads the record again: it writes FAILED exactly
  when the record it then finds is WAITING, and otherwise leaves the store as the other
  flows left it. A FAILED record written by this block is stamped no earlier than the
  grace period after the close. A record found COMPLETED at the second reading stays; in
  particular a submission that is the last write before the second reading is still there
  afterwards.
\<close>

theorem grace_recheck_guard:
  fixes c :: "('i, 's, 'a) cache_manager"
  assumes "sid \<noteq> []"
    and "get_selection c sid = Some selection" and "status selection = WAITING"
  shows
  "handle_websocket_finally now (late, evs) c sid =
     (if \<exists>s. get_selection (run_events evs c) sid = Some s \<and> status s = WAITING
      then set_selection (run_events evs c) sid
             \<lparr>status = FAILED, search_id = sid, sel_timestamp = now + grace_period + max 0 late,
              connected = False, selected_icons = []\<rparr>
      else run_events evs c) \<and>
   (\<forall>s. get_selection (handle_websocket_finally now (late, evs) c sid) sid = Some s \<and>
        status s = FAILED \<and> get_selection (run_events evs c) sid \<noteq> Some s \<longrightarrow>
      now + grace_period \<le> sel_timestamp s) \<and>
   (\<forall>s. get_selection (run_events evs c) sid = Some s \<and> status s = COMPLETED \<longrightarrow>
      get_selection (handle_websocket_finally now (late, evs) c sid) sid = Some s) \<and>
   (items \<noteq> [] \<longrightarrow>
      get_selection (handle_websocket_finally now (late, evs @ [Save t items sid]) c sid) sid =
        Some \<lparr>status = COMPLETED, search_id = sid, sel_timestamp = t, connected = True,
              selected_icons = items\<rparr>)"
proof -
  have fin: "\<And>evs. handle_websocket_finally now (late, evs) c sid =
      handle_websocket_recheck (now + grace_period + max 0 late) (run_events evs c) sid"
    using assms by (simp add: handle_websocket_finally_def)
  have 1: "handle_websocket_finally now (late, evs) c sid =
     (if \<exists>s. get_selection (run_events evs c) sid = Some s \<and> status s = WAITING
      then set_selection (run_events evs c) sid
             \<lparr>status = FAILED, search_id = sid, sel_timestamp = now + grace_period + max 0 late,
              connected = False, selected_icons = []\<rparr>
      else run_events evs c)"
    unfolding fin by (auto simp: handle_websocket_recheck_def split: option.splits)
  have 4: "\<forall>s. get_selection (handle_websocket_finally now (late, evs) c sid) sid = Some s \<and>
        status s = FAILED \<and> get_selection (run_events evs c) sid \<noteq> Some s \<longrightarrow>
      now + grace_period \<le> sel_timestamp s"
    unfolding 1 by (auto simp: get_set_selection)
  have 2: "\<forall>s. get_selection (run_events evs c) sid = Some s \<and> status s = COMPLETED \<longrightarrow>
      get_selection (handle_websocket_finally now (late, evs) c sid) sid = Some s"
    unfolding fin by (auto simp: handle_websocket_recheck_def)
  have 3: "items \<noteq> [] \<longrightarrow>
      get_selection (handle_websocket_finally now (late, evs @ [Save t items sid]) c sid) sid =
        Some \<lparr>status = COMPLETED, search_id = sid, sel_timestamp = t, connected = True,
              selected_icons = items\<rparr>"
    unfolding fin using assms(1)
    by (simp add: handle_websocket_recheck_def run_events_def handle_save_api_def get_set_selection)
  from 1 2 3 4 show ?thesis by simp
qed

theorem grace_recheck_guard_witness:
  "get_selection (handle_websocket_finally 6 (0, [Save 7 [4, 2] ''s1'']) waiting_example ''s1'') ''s1'' =
     Some \<lparr>status = COMPLETED, search_id = ''s1'', sel_timestamp = 7, connected = True,
           selected_icons = [4, 2]\<rparr> \<and>
   get_selection (handle_websocket_finally 6 (0, []) waiting_example ''s1'') ''s1'' =
     Some \<lparr>status = FAILED, search_id = ''s1'', sel_timestamp = 8, connected = False,
           selected_icons = []\<rparr>"
proof -
  have h: "''s1'' \<noteq> []"
    "get_selection waiting_example ''s1'' =
       Some \<lparr>status = WAITING, search_id = ''s1'', sel_timestamp = 5, connected = True,
             selected_icons = []\<rparr>"
    "status \<lparr>status = WAITING, search_id = ''s1'', sel_timestamp = 5, connected = True,
             selected_icons = ([] :: nat list)\<rparr> = WAITING"
    by (simp_all add: waiting_example_def get_selection_def)
  from grace_recheck_guard [OF h, where items = "[4, 2]" and now = 6 and late = 0 and evs = "[]" and t = 7]
  show ?thesis
    by (simp add: run_events_def get_set_selection h(2) grace_period_def)
qed

text \<open>
  Claim C2, as stated, fails: a connection for \<open>s1\<close> is established at 0 and closed at
  1, a new connection for \<open>s1\<close> is established at 2, within the grace period, and the
  handler of the closed connection, waking at 3, finds a WAITING record and writes FAILED.
\<close>

theorem reconnect_still_fails_counterexample:
  "map_option status
     (get_selection
        (handle_websocket 0 ''s1'' (1, []) (0, [WsOpen 2 ''s1''])
           (CacheManager 1800 :: (nat, nat, nat) cache_manager)) ''s1'') = Some FAILED"
  by (simp add: handle_websocket_def handle_websocket_finally_def handle_websocket_open_def
      handle_websocket_recheck_def run_events_def get_set_selection grace_period_def)

text \<open>
  Claim C2, amended. Let the record of a search id be WAITING when its connection is
  closed. A new connection for the same id established during the grace period leaves a
  fresh WAITING record (stamped anew, connected). The handler of the closed connection
  cannot tell that record from the old one: when the reconnection is the last write before
  the second reading, the record is overwritten with FAILED. The second reading leaves
  the store alone only when the record is absent or not WAITING by then.
\<close>

theorem reconnect_within_grace:
  fixes c :: "('i, 's, 'a) cache_manager"
  assumes "sid \<noteq> []"
    and "get_selection c sid = Some selection" and "status selection = WAITING"
  shows
  "get_selection (run_events (evs @ [WsOpen t sid]) c) sid =
     Some \<lparr>status = WAITING, search_id = sid, sel_timestamp = t, connected = True,
           selected_icons = []\<rparr> \<and>
   get_selection (handle_websocket_finally now (late, evs @ [WsOpen t sid]) c sid) sid =
     Some \<lparr>status = FAILED, search_id = sid, sel_timestamp = now + grace_period + max 0 late,
           connected = False, selected_icons = []\<rparr> \<and>
   ((\<forall>s. get_selection (run_events evs c) sid = Some s \<longrightarrow> status s \<noteq> WAITING) \<longrightarrow>
      handle_websocket_finally now (late, evs) c sid = run_events evs c)"
proof -
  have fin: "\<And>evs. handle_websocket_finally now (late, evs) c sid =
      handle_websocket_recheck (now + grace_period + max 0 late) (run_events evs c) sid"
    using assms by (simp add: handle_websocket_finally_def)
  have 1: "get_selection (run_events (evs @ [WsOpen t sid]) c) sid =
     Some \<lparr>status = WAITING, search_id = sid, sel_timestamp = t, connected = True,
           selected_icons = []\<rparr>"
    using assms(1) by (simp add: run_events_def handle_websocket_open_def get_set_selection)
  have 2: "get_selection (handle_websocket_finally now (late, evs @ [WsOpen t sid]) c sid) sid =
     Some \<lparr>status = FAILED, search_id = sid, sel_timestamp = now + grace_period + max 0 late,
           connected = False, selected_icons = []\<rparr>"
    unfolding fin by (simp add: handle_websocket_recheck_def 1 get_set_selection)
  have 3: "(\<forall>s. get_selection (run_events evs c) sid = Some s \<longrightarrow> status s \<noteq> WAITING) \<longrightarrow>
      handle_websocket_finally now (late, evs) c sid = run_events evs c"
    unfolding fin by (auto simp: handle_websocket_recheck_def split: option.splits)
  from 1 2 3 show ?thesis by simp
qed

theorem reconnect_within_grace_witness:
  "get_selection (run_events [WsOpen 7 ''s1''] waiting_example) ''s1'' =
     Some \<lparr>status = WAITING, search_id = ''s1'', sel_timestamp = 7, connected = True,
           selected_icons = []\<rparr> \<and>
   get_selection (handle_websocket_finally 6 (0, [WsOpen 7 ''s1'']) waiting_example ''s1'') ''s1'' =
     Some \<lparr>status = FAILED, search_id = ''s1'', sel_timestamp = 8, connected = False,
           selected_icons = []\<rparr> \<and>
   handle_websocket_finally 6 (0, [Save 7 [4, 2] ''s1'']) waiting_example ''s1'' =
     run_events [Save 7 [4, 2] ''s1''] waiting_example"
proof -
  have h: "''s1'' \<noteq> []"
    "get_selection waiting_example ''s1'' =
       Some \<lparr>status = WAITING, search_id = ''s1'', sel_timestamp = 5, connected = True,
             selected_icons = []\<rparr>"
    "status \<lparr>status = WAITING, search_id = ''s1'', sel_timestamp = 5, connected = True,
             selected_icons = ([] :: nat list)\<rparr> = WAITING"
    by (simp_all add: waiting_example_def get_selection_def)
  from reconnect_within_grace [OF h, where evs = "[]" and now = 6 and late = 0 and t = 7]
       reconnect_within_grace [OF h, where evs = "[Save 7 [4, 2] ''s1'']" and now = 6 and late = 0 and t = 7]
  show ?thesis
    by (simp add: run_events_def handle_save_api_def get_set_selection grace_period_def)
qed

section \<open>Properties of the polling coordinator\<close>

lemma get_search_hit:
  "fst (get_search now c sid) = Some cached \<Longrightarrow> get_search now c sid = (Some cached, c)"
  by (auto simp: get_search_def split: option.splits if_splits)

lemma get_search_frame:
  "selection_cache (snd (get_search now c sid)) = selection_cache c"
  by (simp add: get_search_def split: option.splits)

lemma check_once_terminal:
  "get_selection c sid = Some s \<Longrightarrow> status s = COMPLETED \<Longrightarrow>
     check_once c sid = (Some (Completed (selected_icons s) (length (selected_icons s))),
                         delete_selection c sid)"
  "get_selection c sid = Some s \<Longrightarrow> status s = FAILED \<Longrightarrow>
     check_once c sid = (Some Failed, delete_selection c sid)"
  by (simp_all add: check_once_def)

lemma check_once_pending:
  "\<forall>s. get_selection c sid = Some s \<longrightarrow> status s \<noteq> COMPLETED \<and> status s \<noteq> FAILED \<Longrightarrow>
     check_once c sid = (None, c)"
  by (auto simp: check_once_def split: option.splits)

lemma loop_timeout:
  "\<not> now - start < max_wait_s \<Longrightarrow>
     check_selection_loop sched start max_wait_s now n c sid = (Timeout (py_int (now - start)), n, c)"
  by (simp add: check_selection_loop.simps)

lemma loop_terminal:
  "now - start < max_wait_s \<Longrightarrow> fst (check_once c sid) = Some r \<Longrightarrow>
     check_selection_loop sched start max_wait_s now n c sid = (r, n, snd (check_once c sid))"
  by (subst check_selection_loop.simps) simp

lemma loop_idle_absent:
  "get_selection c sid = None \<Longrightarrow>
     \<exists>secs m. check_selection_loop [] start max_wait_s now n c sid = (Timeout secs, m, c)"
proof (induction "[] :: (real \<times> 'a event list) list" start max_wait_s now n c sid
    rule: check_selection_loop.induct)
  case (1 start max_wait_s now sleeps c sid)
  show ?case
  proof (cases "now - start < max_wait_s")
    case True
    from "1.prems" have once: "check_once c sid = (None, c)"
      by (simp add: check_once_def)
    from "1.hyps"(1) [OF True] once "1.prems"
    obtain secs m where
      "check_selection_loop [] start max_wait_s (now + check_interval) (Suc sleeps) c sid
         = (Timeout secs, m, c)"
      by auto
    with True once show ?thesis
      by (subst check_selection_loop.simps) simp
  next
    case False
    then show ?thesis by (simp add: loop_timeout)
  qed
qed

text \<open>
  Claim C5. When the search namespace has no entry for the search id,
  \<open>check_selection\<close> raises the error of the unknown search at once: no sleep is done
  and the store is left as it was. The same error, again without a sleep and with the
  selection namespace untouched, is raised when the entry is there but expired.
\<close>

theorem check_selection_unknown_search:
  fixes c :: "('i, 's, 'a) cache_manager"
  shows
  "(map_of (search_cache c) sid = None \<longrightarrow>
      check_selection sched now c sid max_wait_ms =
        (Inl (ValueError ''selection.noSearchFound''), 0, c)) \<and>
   (fst (get_search now c sid) = None \<longrightarrow>
      fst (check_selection sched now c sid max_wait_ms) =
        Inl (ValueError ''selection.noSearchFound'') \<and>
      fst (snd (check_selection sched now c sid max_wait_ms)) = 0 \<and>
      selection_cache (snd (snd (check_selection sched now c sid max_wait_ms))) =
        selection_cache c)"
proof (intro conjI impI)
  assume "map_of (search_cache c) sid = None"
  then show "check_selection sched now c sid max_wait_ms =
        (Inl (ValueError ''selection.noSearchFound''), 0, c)"
    by (simp add: check_selection_def get_search_def)
next
  assume none: "fst (get_search now c sid) = None"
  then have eq: "check_selection sched now c sid max_wait_ms =
      (Inl (ValueError ''selection.noSearchFound''), 0, snd (get_search now c sid))"
    by (cases "get_search now c sid") (simp add: check_selection_def)
  show "fst (check_selection sched now c sid max_wait_ms) =
        Inl (ValueError ''selection.noSearchFound'')"
    and "fst (snd (check_selection sched now c sid max_wait_ms)) = 0"
    and "selection_cache (snd (snd (check_selection sched now c sid max_wait_ms))) =
        selection_cache c"
    by (simp_all add: eq get_search_frame)
qed

theorem check_selection_unknown_search_witness:
  "check_selection [(0, [WsOpen 1 ''s2''])] 1 waiting_example ''s2'' 180000 =
     (Inl (ValueError ''selection.noSearchFound''), 0, waiting_example) \<and>
   fst (check_selection [] 2000 waiting_example ''s1'' 180000) =
     Inl (ValueError ''selection.noSearchFound'')"
  using check_selection_unknown_search
          [of waiting_example "''s2''" "[(0, [WsOpen 1 ''s2''])]" 1 180000]
        check_selection_unknown_search [of waiting_example "''s1''" "[]" 2000 180000]
  by (simp add: waiting_example_def get_search_def)

lemma get_search_selection_write:
  "get_search t (set_selection c sid d) k =
     (fst (get_search t c k), set_selection (snd (get_search t c k)) sid d)"
  "get_search t (delete_selection c sid) k =
     (fst (get_search t c k), delete_selection (snd (get_search t c k)) sid)"
  by (simp_all add: get_search_def set_selection_def delete_selection_def split: option.splits)

lemma check_selection_hit:
  "fst (get_search now c sid) = Some cached \<Longrightarrow>
   check_selection sched now c sid max_wait_ms =
     (case check_selection_loop sched now (real_of_int max_wait_ms / 1000) now 0 c sid of
        (r, sleeps, c'') \<Rightarrow> (Inr r, sleeps, c''))"
  by (simp add: check_selection_def get_search_hit Let_def)

text \<open>
  Claim C4. Let the search record be there and unexpired and the selection record be
  absent or not terminal. With a maximal wait of 0 ms or less \<open>check_selection\<close>
  returns the timeout result without a sleep and leaves the store as it was. With a
  maximal wait below the polling interval of 100 ms it reads the record once, sleeps once
  and returns the timeout result; the store is then what the other flows made of it during
  that sleep. The timeout is a result, not an error. A submission made afterwards is
  returned by a later call.
\<close>

theorem short_wait_times_out:
  fixes c :: "('i, 's, 'a) cache_manager"
  assumes search: "fst (get_search now c sid) = Some cached"
    and pending: "\<forall>s. get_selection c sid = Some s \<longrightarrow> status s \<noteq> COMPLETED \<and> status s \<noteq> FAILED"
    and short: "max_wait_ms < 100"
  shows
  "(max_wait_ms \<le> 0 \<longrightarrow>
      check_selection sched now c sid max_wait_ms = (Inr (Timeout 0), 0, c)) \<and>
   (0 < max_wait_ms \<longrightarrow>
      check_selection [] now c sid max_wait_ms = (Inr (Timeout 0), 1, c) \<and>
      check_selection (sleep # rest) now c sid max_wait_ms =
        (Inr (Timeout (py_int (check_interval + max 0 (fst sleep)))), 1,
         run_events (snd sleep) c)) \<and>
   (items \<noteq> [] \<and> sid \<noteq> [] \<and> 0 < later_wait_ms \<and>
    fst (get_search t_later c sid) = Some cached_later \<longrightarrow>
      fst (check_selection sched_later t_later (snd (handle_save_api t_save c items sid)) sid later_wait_ms) =
        Inr (Completed items (length items)))"
proof (intro conjI impI)
  assume "max_wait_ms \<le> 0"
  then have "\<not> now - now < real_of_int max_wait_ms / 1000" by simp
  from loop_timeout [OF this, of sched 0 c sid] show
    "check_selection sched now c sid max_wait_ms = (Inr (Timeout 0), 0, c)"
    by (simp add: check_selection_hit [OF search] py_int_def)
next
  assume pos: "0 < max_wait_ms"
  then have enter: "now - now < real_of_int max_wait_ms / 1000" by simp
  from short have "real_of_int max_wait_ms < 100" by linarith
  then have leave: "\<And>late :: real. \<not> now + check_interval + max 0 late - now
      < real_of_int max_wait_ms / 1000"
    by (simp add: check_interval_def max_def)
  have once: "check_once c sid = (None, c)"
    using pending by (rule check_once_pending)
  have "check_selection_loop [] now (real_of_int max_wait_ms / 1000) now 0 c sid =
      check_selection_loop [] now (real_of_int max_wait_ms / 1000) (now + check_interval) 1 c sid"
    using enter once by (subst check_selection_loop.simps) simp
  also have "\<dots> = (Timeout (py_int (now + check_interval - now)), 1, c)"
    using leave [of 0] by (intro loop_timeout) simp
  finally show "check_selection [] now c sid max_wait_ms = (Inr (Timeout 0), 1, c)"
    by (simp add: check_selection_hit [OF search] py_int_def check_interval_def)
  have "check_selection_loop (sleep # rest) now (real_of_int max_wait_ms / 1000) now 0 c sid =
      check_selection_loop rest now (real_of_int max_wait_ms / 1000)
        (now + check_interval + max 0 (fst sleep)) 1 (run_events (snd sleep) c) sid"
    using enter once by (subst check_selection_loop.simps) simp
  also have "\<dots> = (Timeout (py_int (now + check_interval + max 0 (fst sleep) - now)), 1,
      run_events (snd sleep) c)"
    using leave [of "fst sleep"] by (intro loop_timeout)
  finally show "check_selection (sleep # rest) now c sid max_wait_ms =
        (Inr (Timeout (py_int (check_interval + max 0 (fst sleep)))), 1,
         run_events (snd sleep) c)"
    by (simp add: check_selection_hit [OF search])
next
  assume a: "items \<noteq> [] \<and> sid \<noteq> [] \<and> 0 < later_wait_ms \<and>
    fst (get_search t_later c sid) = Some cached_later"
  let ?d = "\<lparr>status = COMPLETED, search_id = sid, sel_timestamp = t_save, connected = True,
             selected_icons = items\<rparr>"
  from a have saved: "snd (handle_save_api t_save c items sid) = set_selection c sid ?d"
    by (simp add: handle_save_api_def)
  from a have hit: "fst (get_search t_later (set_selection c sid ?d) sid) = Some cached_later"
    by (simp add: get_search_selection_write)
  from a have enter: "t_later - t_later < real_of_int later_wait_ms / 1000" by simp
  have "fst (check_once (set_selection c sid ?d) sid) = Some (Completed items (length items))"
    by (simp add: check_once_def get_set_selection)
  from loop_terminal [OF enter this]
  show "fst (check_selection sched_later t_later (snd (handle_save_api t_save c items sid)) sid later_wait_ms) =
        Inr (Completed items (length items))"
    by (simp add: saved check_selection_hit [OF hit])
qed

theorem short_wait_times_out_witness:
  "check_selection [(0, [Save 1 [4, 2] ''s1''])] 1 waiting_example ''s1'' 0 =
     (Inr (Timeout 0), 0, waiting_example) \<and>
   check_selection [] 1 waiting_example ''s1'' 50 = (Inr (Timeout 0), 1, waiting_example) \<and>
   fst (check_selection [] 3 (snd (handle_save_api 2 waiting_example [4, 2] ''s1'')) ''s1'' 50) =
     Inr (Completed [4, 2] 2)"
proof -
  have h: "fst (get_search 1 waiting_example ''s1'') = Some 3"
    "\<forall>s. get_selection waiting_example ''s1'' = Some s \<longrightarrow>
       status s \<noteq> COMPLETED \<and> status s \<noteq> FAILED"
    by (auto simp: waiting_example_def get_search_def get_selection_def)
  have h3: "fst (get_search 3 waiting_example ''s1'') = Some 3"
    by (simp add: waiting_example_def get_search_def)
  from short_wait_times_out [OF h, where max_wait_ms = 0 and sched = "[(0, [Save 1 [4, 2] ''s1''])]"]
       short_wait_times_out [OF h, where max_wait_ms = 50 and items = "[4, 2]" and t_save = 2
         and t_later = 3 and cached_later = 3 and later_wait_ms = 50 and sched_later = "[]"]
       h3
  show ?thesis by simp
qed

text \<open>
  Claim C3, as stated, fails in its last part: the first call returns the COMPLETED
  selection and deletes the record, and the call after it on the same search id returns
  the timeout result, not the error of the unknown search.
\<close>

theorem consumed_then_not_found_counterexample:
  "fst (check_selection [] 0 completed_example ''s1'' 1000) = Inr (Completed [4, 2] 2) \<and>
   get_selection (snd (snd (check_selection [] 0 completed_example ''s1'' 1000))) ''s1'' = None \<and>
   fst (check_selection [] 1 (snd (snd (check_selection [] 0 completed_example ''s1'' 1000)))
          ''s1'' 250) = Inr (Timeout 0)"
  by (simp add: check_selection_def get_search_def completed_example_def
      check_selection_loop.simps check_once_def get_selection_def delete_selection_def
      check_interval_def py_int_def)

text \<open>
  Claim C3, amended. An iteration of the loop that finds the record COMPLETED returns the
  success result with the items of the record, one that finds it FAILED returns the failure
  result, and in both cases the record is deleted before the return; so does a call that
  finds the record COMPLETED on entry. A later call on the same search id is decided by the
  search record, which the poll does not consume: as long as that is there and unexpired
  the call raises no error, and when no other flow writes it returns the timeout result.
\<close>

theorem poll_returns_terminal_and_consumes:
  fixes c :: "('i, 's, 'a) cache_manager"
  assumes "now - start < max_wait_s" and "get_selection c sid = Some s"
  shows
  "(status s = COMPLETED \<longrightarrow>
      check_selection_loop sched start max_wait_s now n c sid =
        (Completed (selected_icons s) (length (selected_icons s)), n, delete_selection c sid)) \<and>
   (status s = FAILED \<longrightarrow>
      check_selection_loop sched start max_wait_s now n c sid =
        (Failed, n, delete_selection c sid)) \<and>
   get_selection (delete_selection c sid) sid = None \<and>
   (status s = COMPLETED \<and> 0 < max_wait_ms \<and> fst (get_search t c sid) = Some cached \<longrightarrow>
      check_selection sched t c sid max_wait_ms =
        (Inr (Completed (selected_icons s) (length (selected_icons s))), 0,
         delete_selection c sid)) \<and>
   (fst (get_search t_next c sid) = Some cached_next \<longrightarrow>
      (\<exists>r m c'. check_selection sched_next t_next (delete_selection c sid) sid next_wait_ms =
                  (Inr r, m, c')) \<and>
      (\<exists>secs m. check_selection [] t_next (delete_selection c sid) sid next_wait_ms =
                  (Inr (Timeout secs), m, delete_selection c sid)))"
proof (intro conjI impI)
  assume "status s = COMPLETED"
  from loop_terminal [OF assms(1), of c sid _ sched n] check_once_terminal(1) [OF assms(2) this]
  show "check_selection_loop sched start max_wait_s now n c sid =
        (Completed (selected_icons s) (length (selected_icons s)), n, delete_selection c sid)"
    by simp
next
  assume "status s = FAILED"
  from loop_terminal [OF assms(1), of c sid _ sched n] check_once_terminal(2) [OF assms(2) this]
  show "check_selection_loop sched start max_wait_s now n c sid =
        (Failed, n, delete_selection c sid)"
    by simp
next
  show "get_selection (delete_selection c sid) sid = None"
    by (simp add: get_delete_selection)
next
  assume a: "status s = COMPLETED \<and> 0 < max_wait_ms \<and> fst (get_search t c sid) = Some cached"
  then have enter: "t - t < real_of_int max_wait_ms / 1000" by simp
  from a have once: "fst (check_once c sid) =
      Some (Completed (selected_icons s) (length (selected_icons s)))"
    and after: "snd (check_once c sid) = delete_selection c sid"
    using check_once_terminal(1) [OF assms(2)] by simp_all
  from a have hit: "fst (get_search t c sid) = Some cached" by simp
  from loop_terminal [OF enter once, of sched 0] after
  show "check_selection sched t c sid max_wait_ms =
        (Inr (Completed (selected_icons s) (length (selected_icons s))), 0,
         delete_selection c sid)"
    by (simp add: check_selection_hit [OF hit])
next
  assume "fst (get_search t_next c sid) = Some cached_next"
  then have hit: "fst (get_search t_next (delete_selection c sid) sid) = Some cached_next"
    by (simp add: get_search_selection_write)
  show "\<exists>r m c'. check_selection sched_next t_next (delete_selection c sid) sid next_wait_ms =
                  (Inr r, m, c')"
    by (simp add: check_selection_hit [OF hit] split: prod.splits)
  have "get_selection (delete_selection c sid) sid = None"
    by (simp add: get_delete_selection)
  from loop_idle_absent [OF this, of t_next "real_of_int next_wait_ms / 1000" t_next 0]
  show "\<exists>secs m. check_selection [] t_next (delete_selection c sid) sid next_wait_ms =
                  (Inr (Timeout secs), m, delete_selection c sid)"
    by (auto simp: check_selection_hit [OF hit])
qed

theorem poll_returns_terminal_and_consumes_witness:
  "check_selection [] 6 completed_example ''s1'' 180000 =
     (Inr (Completed [4, 2] 2), 0, delete_selection completed_example ''s1'') \<and>
   (\<exists>secs m. check_selection [] 7 (delete_selection completed_example ''s1'') ''s1'' 180000 =
      (Inr (Timeout secs), m, delete_selection completed_example ''s1'')) \<and>
   check_selection_loop [] 6 180 6 0 failed_example ''s1'' =
     (Failed, 0, delete_selection failed_example ''s1'')"
proof -
  have c: "get_selection completed_example ''s1'' =
      Some \<lparr>status = COMPLETED, search_id = ''s1'', sel_timestamp = 5, connected = True,
            selected_icons = [4, 2]\<rparr>"
    by (simp add: completed_example_def get_selection_def)
  have f: "get_selection failed_example ''s1'' =
      Some \<lparr>status = FAILED, search_id = ''s1'', sel_timestamp = 5, connected = False,
            selected_icons = []\<rparr>"
    by (simp add: failed_example_def get_selection_def)
  have e: "(6::real) - 6 < 180" by simp
  have g: "fst (get_search 6 completed_example ''s1'') = Some 3"
    "fst (get_search 7 completed_example ''s1'') = Some 3"
    by (simp_all add: completed_example_def get_search_def)
  from poll_returns_terminal_and_consumes [OF e c, where max_wait_ms = 180000 and t = 6
         and cached = 3 and t_next = 7 and cached_next = 3 and next_wait_ms = 180000
         and sched = "[]"]
       poll_returns_terminal_and_consumes [OF e f, where sched = "[]" and n = 0] g
  show ?thesis by simp
qed

section \<open>Properties of the pagination endpoint\<close>

lemma py_slice_nonneg:
  "0 \<le> i \<Longrightarrow> i \<le> j \<Longrightarrow> py_slice xs i j = take (nat (j - i)) (drop (nat i) xs)"
  by (auto simp: py_slice_def Let_def min_def not_le not_less nat_diff_distrib)

lemma ceil_div:
  fixes n p :: int
  assumes "0 < p"
  shows "(n + p - 1) div p = \<lceil>real_of_int n / real_of_int p\<rceil>"
proof -
  define k where "k = (n + p - 1) div p"
  have "k * p + (n + p - 1) mod p = n + p - 1"
    by (simp add: k_def)
  moreover have "0 \<le> (n + p - 1) mod p" and "(n + p - 1) mod p < p"
    using assms by simp_all
  ultimately have lo: "k * p - p < n" and hi: "n \<le> k * p"
    by linarith+
  from lo have "real_of_int (k * p - p) < real_of_int n"
    by linarith
  then have "(real_of_int k - 1) * real_of_int p < real_of_int n"
    by (simp add: algebra_simps)
  then have 1: "real_of_int k - 1 < real_of_int n / real_of_int p"
    using assms by (simp add: pos_less_divide_eq)
  from hi have "real_of_int n \<le> real_of_int (k * p)"
    by linarith
  then have 2: "real_of_int n / real_of_int p \<le> real_of_int k"
    using assms by (simp add: pos_divide_le_eq)
  from 1 2 have "\<lceil>real_of_int n / real_of_int p\<rceil> = k"
    by (intro ceiling_unique) simp_all
  then show ?thesis by (simp add: k_def)
qed

text \<open>
  Claim C6. For a page number and a page size of at least 1 and a search record that is
  there and unexpired, the endpoint returns the items from position
  \<open>(pg - 1) * psize\<close> on, at most \<open>psize\<close> of them, and as the number of pages the
  ceiling of the length of the item list over the page size, at least 1. A page past the
  end is the empty list. Without a search record the answer is the error 404.
\<close>

theorem cache_api_pagination:
  fixes c :: "('i, 'a search_record, 'b) cache_manager"
  assumes "1 \<le> pg" and "1 \<le> psize"
  shows
  "(fst (get_search now c sid) = Some cached \<longrightarrow>
      handle_cache_api now c sid pg psize =
        (Inr (Json200
           \<lparr>page_icons = take (nat psize) (drop (nat ((pg - 1) * psize)) (rec_icons cached)),
            page_count = length (take (nat psize) (drop (nat ((pg - 1) * psize)) (rec_icons cached))),
            totalCount = rec_total_count cached,
            page_number = pg, pageSize = psize,
            totalPages =
              max 1 \<lceil>real (length (rec_icons cached)) / real_of_int psize\<rceil>\<rparr>), c) \<and>
      (int (length (rec_icons cached)) \<le> (pg - 1) * psize \<longrightarrow>
         take (nat psize) (drop (nat ((pg - 1) * psize)) (rec_icons cached)) = [])) \<and>
   (fst (get_search now c sid) = None \<longrightarrow>
      fst (handle_cache_api now c sid pg psize) = Inr (Json404 ''Search not found''))"
proof (intro conjI impI)
  assume hit: "fst (get_search now c sid) = Some cached"
  from assms have start: "0 \<le> (pg - 1) * psize" by simp
  from assms have "(pg - 1) * psize \<le> (pg - 1) * psize + psize" by simp
  from py_slice_nonneg [OF start this]
  have slice: "py_slice (rec_icons cached) ((pg - 1) * psize) ((pg - 1) * psize + psize) =
      take (nat psize) (drop (nat ((pg - 1) * psize)) (rec_icons cached))"
    by simp
  from assms have pages: "(int (length (rec_icons cached)) + psize - 1) div psize =
      \<lceil>real (length (rec_icons cached)) / real_of_int psize\<rceil>"
    using ceil_div [of psize "int (length (rec_icons cached))"] by simp
  from assms slice pages show "handle_cache_api now c sid pg psize =
        (Inr (Json200
           \<lparr>page_icons = take (nat psize) (drop (nat ((pg - 1) * psize)) (rec_icons cached)),
            page_count = length (take (nat psize) (drop (nat ((pg - 1) * psize)) (rec_icons cached))),
            totalCount = rec_total_count cached,
            page_number = pg, pageSize = psize,
            totalPages =
              max 1 \<lceil>real (length (rec_icons cached)) / real_of_int psize\<rceil>\<rparr>), c)"
    by (simp add: handle_cache_api_def get_search_hit [OF hit] Let_def)
next
  assume "int (length (rec_icons cached)) \<le> (pg - 1) * psize"
  then have "length (rec_icons cached) \<le> nat ((pg - 1) * psize)" by linarith
  then show "take (nat psize) (drop (nat ((pg - 1) * psize)) (rec_icons cached)) = []"
    by simp
next
  assume "fst (get_search now c sid) = None"
  then show "fst (handle_cache_api now c sid pg psize) = Inr (Json404 ''Search not found'')"
    by (cases "get_search now c sid") (simp add: handle_cache_api_def)
qed

theorem cache_api_pagination_witness:
  "page_of (handle_cache_api 5 paged_example ''s1'' 1 10) = ([1, 2, 3, 4, 5, 6, 7, 8, 9, 10], 3) \<and>
   page_of (handle_cache_api 5 paged_example ''s1'' 3 10) = ([21, 22, 23], 3) \<and>
   page_of (handle_cache_api 5 paged_example ''s1'' 4 10) = ([], 3) \<and>
   fst (handle_cache_api 5 paged_example ''s2'' 1 10) = Inr (Json404 ''Search not found'')"
proof -
  have h: "(1::int) \<le> 1" "(1::int) \<le> 3" "(1::int) \<le> 4" "(1::int) \<le> 10" by simp_all
  have g: "fst (get_search 5 paged_example ''s1'') =
      Some \<lparr>rec_query = ''home'', rec_page = 1, rec_page_size = 100,
                          rec_icons = [1, 2, 3, 4, 5, 6, 7, 8, 9, 10, 11, 12, 13, 14, 15, 16, 17,
                                       18, 19, 20, 21, 22, 23],
                          rec_total_count = 23, rec_timestamp = 0\<rparr>"
    "fst (get_search 5 paged_example ''s2'') = None"
    by (simp_all add: paged_example_def get_search_def)
  have n: "nat 10 = 10" "nat 20 = 20" "nat 30 = 30" by simp_all
  from cache_api_pagination [OF h(1) h(4), of 5 paged_example "''s1''"]
       cache_api_pagination [OF h(2) h(4), of 5 paged_example "''s1''"]
       cache_api_pagination [OF h(3) h(4), of 5 paged_example "''s1''"]
       cache_api_pagination [OF h(1) h(4), of 5 paged_example "''s2''"]
  show ?thesis
    by (simp add: g page_of_def n)
qed

section \<open>Properties of the search\<close>

lemma apply_event_frame:
  "icon_cache (apply_event ev c) = icon_cache c"
  "search_cache (apply_event ev c) = search_cache c"
  "expiry_seconds (apply_event ev c) = expiry_seconds c"
  by (cases ev; simp add: handle_websocket_open_def handle_websocket_recheck_def
      handle_save_api_def check_once_def set_selection_frame delete_selection_frame
      split: option.splits)+

lemma run_events_frame:
  "icon_cache (run_events evs c) = icon_cache c"
  "search_cache (run_events evs c) = search_cache c"
  "expiry_seconds (run_events evs c) = expiry_seconds c"
  unfolding run_events_def
  by (induction evs arbitrary: c; simp add: apply_event_frame)+

lemma search_icons_hit:
  assumes "1 \<le> pg" and "1 \<le> psize" and "psize \<le> 100"
    and "map_of (icon_cache c) (cache_key q sort_type pg psize s_type from_collection fills) = Some e"
    and "now - timestamp e \<le> expiry_seconds c"
  shows "search_icons upstream rand_str now c q sort_type pg psize s_type from_collection fills
           = (Inr (data e), c)"
  using assms by (simp add: search_icons_def get_icon_def)

text \<open>
  Claim C10. When a call of \<open>search_icons\<close> has returned a result, the icon namespace
  holds that result under the key of the parameters, and a later call with the same
  parameters made while the age of that entry is at most \<open>expiry_seconds\<close> returns the
  same result, with the same search id, and leaves the store as it was, whatever the
  upstream would answer and whatever random string would be drawn.
\<close>

theorem repeated_search_returns_cached:
  fixes c :: "('a search_result, 'a search_record, 'b) cache_manager"
  assumes first:
    "search_icons upstream rand_str now c q sort_type pg psize s_type from_collection fills
       = (Inr r, c1)"
  shows
  "\<exists>e. map_of (icon_cache c1) (cache_key q sort_type pg psize s_type from_collection fills) = Some e \<and>
       data e = r \<and>
       (later - timestamp e \<le> expiry_seconds c1 \<longrightarrow>
          search_icons upstream_later rand_later later c1 q sort_type pg psize s_type
            from_collection fills = (Inr r, c1))"
proof -
  let ?k = "cache_key q sort_type pg psize s_type from_collection fills"
  from first have valid: "1 \<le> pg" "1 \<le> psize" "psize \<le> 100"
    by (auto simp: search_icons_def split: if_splits)
  have "\<exists>e. map_of (icon_cache c1) ?k = Some e \<and> data e = r"
  proof (cases "fst (get_icon now c ?k)")
    case (Some cached)
    then have g: "get_icon now c ?k = (Some cached, c)"
      by (auto simp: get_icon_def split: option.splits if_splits)
    with first valid have "r = cached" "c1 = c"
      by (simp_all add: search_icons_def)
    with Some show ?thesis
      by (auto simp: get_icon_def split: option.splits if_splits)
  next
    case None
    then obtain c' where g: "get_icon now c ?k = (None, c')"
      by (cases "get_icon now c ?k") simp
    from first valid g show ?thesis
      by (auto simp: search_icons_def Let_def set_search_def set_icon_def update_conv'
          split: upstream_reply.splits if_splits)
  qed
  then obtain e where e: "map_of (icon_cache c1) ?k = Some e" "data e = r"
    by blast
  have "later - timestamp e \<le> expiry_seconds c1 \<longrightarrow>
          search_icons upstream_later rand_later later c1 q sort_type pg psize s_type
            from_collection fills = (Inr r, c1)"
    using search_icons_hit [OF valid e(1)] e(2) by simp
  with e show ?thesis by blast
qed

theorem repeated_search_returns_cached_witness:
  "map_sum id res_icons (fst first_search) = Inr [1, 2, 3] \<and>
   search_icons (3, [], HttpTimeout) ''zzzzzzzz'' 100 (snd first_search)
     ''home'' ''recommend'' 1 100 '''' (- 1) '''' = first_search"
proof -
  let ?k = "cache_key ''home'' ''recommend'' 1 100 '''' (- 1) ''''"
  have ok: "map_sum id res_icons (fst first_search) = Inr [1, 2, 3]"
    by (simp add: first_search_def search_icons_def get_icon_def CacheManager_def Let_def)
  then obtain r where r: "fst first_search = Inr r"
    by (cases "fst first_search") auto
  then have pair: "first_search = (Inr r, snd first_search)"
    by (metis prod.collapse)
  have stamp: "map_option timestamp (map_of (icon_cache (snd first_search)) ?k) = Some (1 / 2)"
    by (simp add: first_search_def search_icons_def get_icon_def CacheManager_def Let_def
        run_events_def set_search_def set_icon_def)
  have ttl: "expiry_seconds (snd first_search) = 1800"
    by (simp add: first_search_def search_icons_def get_icon_def CacheManager_def Let_def
        run_events_def set_search_def set_icon_def)
  from repeated_search_returns_cached [OF pair [unfolded first_search_def],
      folded first_search_def, of 100 "(3, [], HttpTimeout)" "''zzzzzzzz''"]
  obtain e where e: "map_of (icon_cache (snd first_search)) ?k = Some e"
    and again: "100 - timestamp e \<le> expiry_seconds (snd first_search) \<longrightarrow>
      search_icons (3, [], HttpTimeout) ''zzzzzzzz'' 100 (snd first_search)
        ''home'' ''recommend'' 1 100 '''' (- 1) '''' = (Inr r, snd first_search)"
    by blast
  from e stamp have "timestamp e = 1 / 2" by simp
  with again ttl pair ok show ?thesis by simp
qed

end
